theory Spec2Isabelle
  imports
    Complex_Main
    "HOL-Library.Char_ord"
    "HOL-Library.List_Lexorder"
    "HOL-Library.Sublist"
    "HOL-Library.Multiset"
begin

section \<open>The dashboard script \<open>app.py\<close>: data model\<close>

text \<open>
  \<open>app.py\<close> is one Streamlit script over a pandas data frame of article records. A data
  frame is modelled as the list of its rows, in row order; a column is the list of one
  field. A Python \<open>str\<close> is a \<open>string\<close> whose characters are read as code points below
  256. Python exceptions are values of \<open>error\<close>, and code that may raise returns
  \<open>error + 'a\<close>.

  Of the exceptions, \<open>IndexError\<close>, \<open>KeyError\<close> and \<open>ZeroDivisionError\<close> are the ones the
  statements of the script can raise on the inputs modelled here, and \<open>ValueError\<close> is
  what \<open>pd.read_json\<close> raises on a file it cannot parse. \<open>NoSnapshotFound\<close> and
  \<open>UnmappedMarket\<close> are names of the specification's error taxonomy; no statement of the
  script raises them, they are constructors only so that theorems can tell them apart
  from what the script raises.
\<close>

datatype error =
    IndexError
  | KeyError
  | ZeroDivisionError
  | ValueError
  | NoSnapshotFound
  | UnmappedMarket

text \<open>
  The columns the script reads. \<open>publishedAt\<close> is converted on load and never read again,
  so it is left out. \<open>key_regulators\<close> is \<open>None\<close> where the cell is not a list (the script
  tests \<open>isinstance(regs, list)\<close>).
\<close>

record article =
  title :: string
  market_name :: string
  category :: string
  relevance_score :: int
  impact_level :: string
  key_regulators :: "string list option"
  source_name :: string
  what_happened :: string

type_synonym dataframe = "article list"

text \<open>The four sidebar widgets (lines 90-117): three multi-selects and one slider.\<close>

record filter_state =
  selected_markets :: "string list"
  min_relevance :: int
  selected_categories :: "string list"
  selected_impact :: "string list"

section \<open>Filtering (lines 120-125)\<close>

text \<open>
  \<open>Series.isin(values)\<close> is membership in the list of selected values, \<open>&\<close> is the
  conjunction of the four boolean columns, and \<open>df[mask]\<close> keeps the rows whose mask is
  true, in order.
\<close>

definition isin :: "'a \<Rightarrow> 'a list \<Rightarrow> bool" where
  "isin x vs = (x \<in> set vs)"

definition filter_mask :: "filter_state \<Rightarrow> article \<Rightarrow> bool" where
  "filter_mask fs r =
     (isin (market_name r) (selected_markets fs) \<and>
      relevance_score r \<ge> min_relevance fs \<and>
      isin (category r) (selected_categories fs) \<and>
      isin (impact_level r) (selected_impact fs))"

definition df_filtered :: "dataframe \<Rightarrow> filter_state \<Rightarrow> dataframe" where
  "df_filtered df fs = filter (filter_mask fs) df"

text \<open>Two records and a filter state used to evaluate the definitions.\<close>

definition japan_9 :: article where
  "japan_9 = \<lparr>title = ''BoJ holds rates'', market_name = ''Japan'',
     category = ''monetary_policy'', relevance_score = 9, impact_level = ''high'',
     key_regulators = Some [''BoJ''], source_name = ''Reuters'',
     what_happened = ''held''\<rparr>"

definition japan_3 :: article where
  "japan_3 = \<lparr>title = ''FSA note'', market_name = ''Japan'',
     category = ''other'', relevance_score = 3, impact_level = ''low'',
     key_regulators = None, source_name = ''Nikkei'',
     what_happened = ''note''\<rparr>"

definition select_all :: filter_state where
  "select_all = \<lparr>selected_markets = [''Japan''], min_relevance = 0,
     selected_categories = [''monetary_policy'', ''other''],
     selected_impact = [''high'', ''medium'', ''low'']\<rparr>"

section \<open>Loading the snapshot (lines 38-43)\<close>

text \<open>
  The directory \<open>data/processed\<close> is the list of the names of its entries, in the order the
  operating system lists them. \<open>Path.glob('analyzed_articles_*.json')\<close> keeps the names
  that match the pattern: the only wildcard is one \<open>*\<close>, which stands for any run of
  characters, the empty one too, so a name matches when it starts with the text before
  the \<open>*\<close>, ends with the text after it, and the two do not overlap.
\<close>

definition fnmatch_star :: "string \<Rightarrow> string \<Rightarrow> string \<Rightarrow> bool" where
  "fnmatch_star pre suf name =
     (length pre + length suf \<le> length name \<and>
      take (length pre) name = pre \<and>
      drop (length name - length suf) name = suf)"

definition glob :: "string list \<Rightarrow> string list" where
  "glob names = filter (fnmatch_star ''analyzed_articles_'' ''.json'') names"

text \<open>
  \<open>xs[i]\<close> for a Python list: a negative index counts from the end, and an index out of
  range raises \<open>IndexError\<close>.
\<close>

definition py_index :: "'a list \<Rightarrow> int \<Rightarrow> error + 'a" where
  "py_index xs i =
     (if 0 \<le> i \<and> i < int (length xs) then Inr (xs ! nat i)
      else if i < 0 \<and> - int (length xs) \<le> i then Inr (xs ! nat (int (length xs) + i))
      else Inl IndexError)"

text \<open>
  \<open>sorted\<close> orders the paths; paths of one directory compare as their names do, character
  by character by code point, a proper prefix first: the order of \<open>string\<close> here.
\<close>

definition latest_file :: "string list \<Rightarrow> error + string" where
  "latest_file names = py_index (sort (glob names)) (- 1)"

text \<open>
  \<open>str.rfind\<close>, \<open>Path.stem\<close> (the name without its last suffix) and \<open>str.split\<close> on a
  one-character separator.
\<close>

definition rfind :: "char \<Rightarrow> string \<Rightarrow> nat option" where
  "rfind c s =
     (case dropWhile (\<lambda>x. x \<noteq> c) (rev s) of [] \<Rightarrow> None | _ # rest \<Rightarrow> Some (length rest))"

definition stem :: "string \<Rightarrow> string" where
  "stem name =
     (case rfind (CHR ''.'') name of
        None \<Rightarrow> name
      | Some i \<Rightarrow> if 0 < i \<and> Suc i < length name then take i name else name)"

fun split_on :: "char \<Rightarrow> string \<Rightarrow> string list" where
  "split_on c [] = [[]]"
| "split_on c (x # xs) =
     (if x = c then [] # split_on c xs
      else (case split_on c xs of [] \<Rightarrow> [[x]] | p # ps \<Rightarrow> (x # p) # ps))"

text \<open>
  \<open>load_data\<close>. Reading and parsing the chosen file (\<open>pd.read_json\<close>, then the conversion
  of \<open>publishedAt\<close>) depends on the file's contents and is the parameter \<open>read_json\<close>.
  The result is the collection and the label made of the last two \<open>_\<close>-separated parts
  of the file's stem.
\<close>

definition load_data ::
  "(string \<Rightarrow> error + dataframe) \<Rightarrow> string list \<Rightarrow> error + dataframe \<times> string" where
  "load_data read_json names =
     (case latest_file names of
        Inl e \<Rightarrow> Inl e
      | Inr file \<Rightarrow>
          (case read_json file of
             Inl e \<Rightarrow> Inl e
           | Inr df \<Rightarrow>
               (case py_index (split_on (CHR ''_'') (stem file)) (- 2) of
                  Inl e \<Rightarrow> Inl e
                | Inr d \<Rightarrow>
                    (case py_index (split_on (CHR ''_'') (stem file)) (- 1) of
                       Inl e \<Rightarrow> Inl e
                     | Inr t \<Rightarrow> Inr (df, d @ ''_'' @ t)))))"

section \<open>Key insights (lines 135-165)\<close>

text \<open>
  \<open>a / b\<close> on two Python ints is true division: it raises \<open>ZeroDivisionError\<close> when \<open>b\<close>
  is 0 and otherwise gives the float nearest the quotient, modelled by the exact
  rational. \<open>Series.mean()\<close> of an empty column is NaN (no exception), modelled by
  \<open>None\<close>. The f-string formatting of the results is display only.
\<close>

definition py_truediv :: "int \<Rightarrow> int \<Rightarrow> error + rat" where
  "py_truediv a b = (if b = 0 then Inl ZeroDivisionError else Inr (of_int a / of_int b))"

definition series_mean :: "int list \<Rightarrow> rat option" where
  "series_mean xs =
     (if xs = [] then None else Some (of_int (sum_list xs) / of_nat (length xs)))"

definition nunique :: "'a list \<Rightarrow> nat" where
  "nunique xs = length (remdups xs)"

record key_insights =
  ki_total_articles :: nat
  ki_pct_of_total :: rat
  ki_avg_relevance :: "rat option"
  ki_high_impact :: nat
  ki_pct_of_filtered :: rat
  ki_markets_covered :: nat

text \<open>
  The four \<open>st.metric\<close> blocks in the order the script runs them; \<open>df\<close> is the loaded
  collection and \<open>dff\<close> the filtered one.
\<close>

definition key_metrics :: "dataframe \<Rightarrow> dataframe \<Rightarrow> error + key_insights" where
  "key_metrics df dff =
     (case py_truediv (int (length dff)) (int (length df)) of
        Inl e \<Rightarrow> Inl e
      | Inr q1 \<Rightarrow>
          (let avg = series_mean (map relevance_score dff);
               high_impact = length (filter (\<lambda>r. impact_level r = ''high'') dff)
           in case py_truediv (int high_impact) (int (length dff)) of
                Inl e \<Rightarrow> Inl e
              | Inr q2 \<Rightarrow>
                  Inr \<lparr>ki_total_articles = length dff, ki_pct_of_total = q1 * 100,
                       ki_avg_relevance = avg, ki_high_impact = high_impact,
                       ki_pct_of_filtered = q2 * 100,
                       ki_markets_covered = nunique (map market_name dff)\<rparr>))"

section \<open>Shared pandas operations\<close>

text \<open>
  \<open>drop_duplicates(subset=k, keep='first')\<close> walks the rows in order and keeps a row when
  no row before it has the same key; \<open>seen\<close> holds the keys met so far.
  \<open>Series.unique()\<close> is the same walk over the values themselves: the distinct values
  in order of first appearance.
\<close>

fun drop_duplicates_from :: "('a \<Rightarrow> 'k) \<Rightarrow> 'k list \<Rightarrow> 'a list \<Rightarrow> 'a list" where
  "drop_duplicates_from key seen [] = []"
| "drop_duplicates_from key seen (x # xs) =
     (if key x \<in> set seen then drop_duplicates_from key seen xs
      else x # drop_duplicates_from key (key x # seen) xs)"

definition drop_duplicates :: "('a \<Rightarrow> 'k) \<Rightarrow> 'a list \<Rightarrow> 'a list" where
  "drop_duplicates key xs = drop_duplicates_from key [] xs"

definition unique :: "'a list \<Rightarrow> 'a list" where
  "unique xs = drop_duplicates (\<lambda>x. x) xs"

text \<open>
  \<open>sort_values(col, ascending=False)\<close>: the rows by decreasing value of an integer column.
  pandas leaves the order among rows of equal value to numpy's sort; the model keeps
  them in their former order, and no theorem below depends on that choice.
\<close>

definition sort_values_desc :: "('a \<Rightarrow> int) \<Rightarrow> 'a list \<Rightarrow> 'a list" where
  "sort_values_desc col rows = sort_key (\<lambda>r. - col r) rows"

text \<open>The rows of one market: \<open>df[df['market_name'] == market]\<close>.\<close>

definition market_rows :: "dataframe \<Rightarrow> string \<Rightarrow> dataframe" where
  "market_rows dff m = filter (\<lambda>r. market_name r = m) dff"

section \<open>Market summary (lines 178-182)\<close>

text \<open>
  \<open>groupby('market_name')\<close> makes one group per distinct market, the groups ordered by
  market name; \<open>agg\<close> gives each its number of relevance scores and their mean (a group
  is never empty, so the mean is a number); \<open>sort_values\<close> orders the rows by decreasing
  count.
\<close>

record market_overview_row =
  mo_market :: string
  mo_article_count :: nat
  mo_avg_relevance :: rat

definition groupby_count_mean :: "dataframe \<Rightarrow> market_overview_row list" where
  "groupby_count_mean dff =
     map (\<lambda>m. \<lparr>mo_market = m,
               mo_article_count = length (market_rows dff m),
               mo_avg_relevance =
                 of_int (sum_list (map relevance_score (market_rows dff m))) /
                 of_nat (length (market_rows dff m))\<rparr>)
         (sort (remdups (map market_name dff)))"

definition market_overview :: "dataframe \<Rightarrow> market_overview_row list" where
  "market_overview dff =
     sort_values_desc (\<lambda>row. int (mo_article_count row)) (groupby_count_mean dff)"

section \<open>Category by market (lines 266-273)\<close>

text \<open>
  The frame \<open>pd.crosstab\<close> returns: the row labels (markets) and the columns, each a
  category with its counts, one per row label. Rows and columns are the distinct markets
  and categories of the collection in sorted order.
\<close>

record count_frame =
  cf_index :: "string list"
  cf_columns :: "(string \<times> nat list) list"

definition crosstab :: "dataframe \<Rightarrow> count_frame" where
  "crosstab dff =
     (let ms = sort (remdups (map market_name dff));
          cs = sort (remdups (map category dff))
      in \<lparr>cf_index = ms,
          cf_columns =
            map (\<lambda>c. (c, map (\<lambda>m. length (filter (\<lambda>r. category r = c) (market_rows dff m))) ms))
                cs\<rparr>)"

text \<open>
  \<open>category_market.sum(axis=1)\<close>, the order of the row positions by decreasing row sum,
  and \<open>.loc\<close> with that order.
\<close>

definition row_sums :: "count_frame \<Rightarrow> nat list" where
  "row_sums cf =
     map (\<lambda>i. sum_list (map (\<lambda>(c, col). col ! i) (cf_columns cf))) [0..<length (cf_index cf)]"

definition reorder_rows :: "count_frame \<Rightarrow> nat list \<Rightarrow> count_frame" where
  "reorder_rows cf order =
     \<lparr>cf_index = map (\<lambda>i. cf_index cf ! i) order,
      cf_columns = map (\<lambda>(c, col). (c, map (\<lambda>i. col ! i) order)) (cf_columns cf)\<rparr>"

definition sort_rows_by_sum :: "count_frame \<Rightarrow> count_frame" where
  "sort_rows_by_sum cf =
     reorder_rows cf
       (sort_values_desc (\<lambda>i. int (row_sums cf ! i)) [0..<length (cf_index cf)])"

text \<open>
  Reading a column raises \<open>KeyError\<close> when the frame has no column of that name;
  assigning to a column replaces it where it stands (or appends a new one); \<open>drop\<close>
  removes it.
\<close>

definition get_column :: "count_frame \<Rightarrow> string \<Rightarrow> error + nat list" where
  "get_column cf c =
     (case map_of (cf_columns cf) c of None \<Rightarrow> Inl KeyError | Some col \<Rightarrow> Inr col)"

definition set_column :: "count_frame \<Rightarrow> string \<Rightarrow> nat list \<Rightarrow> count_frame" where
  "set_column cf c col =
     (if c \<in> set (map fst (cf_columns cf))
      then cf\<lparr>cf_columns := map (\<lambda>(c', old). (c', if c' = c then col else old)) (cf_columns cf)\<rparr>
      else cf\<lparr>cf_columns := cf_columns cf @ [(c, col)]\<rparr>)"

definition drop_column :: "count_frame \<Rightarrow> string \<Rightarrow> count_frame" where
  "drop_column cf c = cf\<lparr>cf_columns := filter (\<lambda>(c', col). c' \<noteq> c) (cf_columns cf)\<rparr>"

text \<open>
  Lines 266-273. In \<open>category_market['other'] + category_market['cross_border_investment']\<close>
  the left operand is read first.
\<close>

definition category_market :: "dataframe \<Rightarrow> error + count_frame" where
  "category_market dff =
     (let cf = sort_rows_by_sum (crosstab dff)
      in if ''cross_border_investment'' \<in> set (map fst (cf_columns cf))
         then (case get_column cf ''other'' of
                 Inl e \<Rightarrow> Inl e
               | Inr other \<Rightarrow>
                   (case get_column cf ''cross_border_investment'' of
                      Inl e \<Rightarrow> Inl e
                    | Inr cross \<Rightarrow>
                        Inr (drop_column
                               (set_column cf ''other'' (map2 (+) other cross))
                               ''cross_border_investment'')))
         else Inr cf)"

text \<open>The sum of all cells of a frame, and the cell of a market and a category.\<close>

definition cell_total :: "count_frame \<Rightarrow> nat" where
  "cell_total cf = sum_list (map (\<lambda>(c, col). sum_list col) (cf_columns cf))"

definition cell :: "count_frame \<Rightarrow> string \<Rightarrow> string \<Rightarrow> nat option" where
  "cell cf m c =
     (case map_of (cf_columns cf) c of
        None \<Rightarrow> None
      | Some col \<Rightarrow> map_of (zip (cf_index cf) col) m)"

section \<open>Geographic view (lines 313-346)\<close>

definition country_iso :: "(string \<times> string) list" where
  "country_iso =
     [(''United States'', ''USA''), (''United Kingdom'', ''GBR''), (''Japan'', ''JPN''),
      (''Germany'', ''DEU''), (''France'', ''FRA'')]"

text \<open>
  \<open>Counter(xs)\<close> holds the distinct elements in order of first appearance, each with
  its number of occurrences, and \<open>most_common(1)\<close> is Python's \<open>max\<close> over those pairs by
  count: the first pair of greatest count. \<open>value_counts().index[0]\<close> is the most
  frequent value too; among values of equal count pandas does not fix which comes
  first, and the model takes the first to appear.
\<close>

definition counter :: "'a list \<Rightarrow> ('a \<times> nat) list" where
  "counter xs = map (\<lambda>x. (x, count_list xs x)) (unique xs)"

fun first_max :: "('a \<times> nat) list \<Rightarrow> ('a \<times> nat) option" where
  "first_max [] = None"
| "first_max (p # ps) =
     (case first_max ps of
        None \<Rightarrow> Some p
      | Some q \<Rightarrow> if snd p < snd q then Some q else Some p)"

text \<open>
  One summary record. The script stores \<open>round(market_df['relevance_score'].mean(), 1)\<close>
  as \<open>avg_relevance\<close>: a float, rounded by a float operation whose result at a tie
  depends on the binary representation of the mean. It is a function of the market's
  relevance scores, and the model takes that function as the parameter \<open>round_mean\<close> of
  the loop, with values in any type \<open>'f\<close>; \<open>gr_avg_relevance\<close> is its value on the scores
  of the market. \<open>gr_top_regulator\<close> is \<open>None\<close> where the script stores "N/A", and
  otherwise the regulator and the number of mentions that the script joins into one
  string; \<open>gr_primary_focus\<close> is the most frequent category, which the script stores
  after turning it into a title-cased label.
\<close>

record 'f geo_row =
  gr_market :: string
  gr_iso_code :: string
  gr_article_count :: nat
  gr_avg_relevance :: 'f
  gr_high_impact_count :: nat
  gr_top_regulator :: "(string \<times> nat) option"
  gr_primary_focus :: string

text \<open>
  The loop over the markets. In one pass the script gathers the regulators, takes the
  most frequent category (\<open>index[0]\<close>, which raises on an empty group), and then builds
  the record, where \<open>country_iso[market]\<close> raises \<open>KeyError\<close> for a market that is not a
  key of the table. An exception leaves the loop and discards the records built so far.
\<close>

fun map_data_loop ::
  "(int list \<Rightarrow> 'f) \<Rightarrow> dataframe \<Rightarrow> string list \<Rightarrow> error + 'f geo_row list" where
  "map_data_loop round_mean dff [] = Inr []"
| "map_data_loop round_mean dff (market # rest) =
     (let market_df = market_rows dff market;
          all_regs = concat (map (\<lambda>r. case key_regulators r of
                                          None \<Rightarrow> [] | Some regs \<Rightarrow> regs) market_df)
      in case first_max (counter (map category market_df)) of
           None \<Rightarrow> Inl IndexError
         | Some top_category \<Rightarrow>
             (case map_of country_iso market of
                None \<Rightarrow> Inl KeyError
              | Some iso_code \<Rightarrow>
                  (case map_data_loop round_mean dff rest of
                     Inl e \<Rightarrow> Inl e
                   | Inr rows \<Rightarrow>
                       Inr (\<lparr>gr_market = market, gr_iso_code = iso_code,
                             gr_article_count = length market_df,
                             gr_avg_relevance = round_mean (map relevance_score market_df),
                             gr_high_impact_count =
                               length (filter (\<lambda>r. impact_level r = ''high'') market_df),
                             gr_top_regulator = first_max (counter all_regs),
                             gr_primary_focus = fst top_category\<rparr> # rows))))"

definition map_data :: "(int list \<Rightarrow> 'f) \<Rightarrow> dataframe \<Rightarrow> error + 'f geo_row list" where
  "map_data round_mean dff = map_data_loop round_mean dff (unique (map market_name dff))"

section \<open>Curated table (lines 403-422)\<close>

text \<open>
  \<open>str.lower()\<close> on a character below 256: the letters A-Z and the capital letters of
  the Latin-1 block (192-222 without the multiplication sign 215) move up by 32, every
  other character stays.
\<close>

definition lower_char :: "char \<Rightarrow> char" where
  "lower_char c =
     (let n = (of_char c :: nat)
      in if (65 \<le> n \<and> n \<le> 90) \<or> (192 \<le> n \<and> n \<le> 222 \<and> n \<noteq> 215)
         then char_of (n + 32) else c)"

text \<open>
  The pattern \<open>[^a-z0-9\s]\<close> matches every character that is not a letter a-z, not a
  digit and not whitespace; \<open>\s\<close> in a \<open>str\<close> pattern is Unicode whitespace, below 256 the
  characters 9-13, 28-32, 133 and 160. Replacing the matches by the empty string keeps
  the other characters.
\<close>

definition is_space :: "char \<Rightarrow> bool" where
  "is_space c =
     (let n = (of_char c :: nat)
      in (9 \<le> n \<and> n \<le> 13) \<or> (28 \<le> n \<and> n \<le> 32) \<or> n = 133 \<or> n = 160)"

definition kept_char :: "char \<Rightarrow> bool" where
  "kept_char c =
     (let n = (of_char c :: nat)
      in (97 \<le> n \<and> n \<le> 122) \<or> (48 \<le> n \<and> n \<le> 57) \<or> is_space c)"

definition title_normalized :: "article \<Rightarrow> string" where
  "title_normalized r = filter kept_char (map lower_char (title r))"

text \<open>
  Lines 403-405. The script stores the normalized title in a new column and drops
  duplicates on it; the column is read nowhere else, so the model computes it from the
  title.
\<close>

definition df_unique :: "dataframe \<Rightarrow> dataframe" where
  "df_unique dff = drop_duplicates title_normalized dff"

definition excluded_sources :: "string list" where
  "excluded_sources = [''Economictimes.com'', ''Bitcoinist'', ''Cointelegraph'']"

definition exclude_sources :: "dataframe \<Rightarrow> dataframe" where
  "exclude_sources dfu = filter (\<lambda>r. \<not> isin (source_name r) excluded_sources) dfu"

definition market_order :: "string list" where
  "market_order = [''United States'', ''United Kingdom'', ''Germany'', ''Japan'', ''France'']"

text \<open>
  \<open>nlargest(n, 'relevance_score')\<close>: the \<open>n\<close> rows of greatest relevance, by decreasing
  relevance, the earlier row first among equals (\<open>keep='first'\<close>).
\<close>

definition nlargest :: "nat \<Rightarrow> dataframe \<Rightarrow> dataframe" where
  "nlargest n dfu = take n (sort_values_desc relevance_score dfu)"

text \<open>
  The loop of lines 415-419 over a list of markets: a market with no row is passed over,
  every other one appends its group. Lines 421-422: the groups are concatenated when
  there is one, and otherwise (\<open>None\<close>) the panel shows "No articles match the current
  filters."
\<close>

fun top_articles_loop :: "dataframe \<Rightarrow> string list \<Rightarrow> dataframe list" where
  "top_articles_loop dfu [] = []"
| "top_articles_loop dfu (market # rest) =
     (if isin market (map market_name dfu)
      then nlargest 5 (market_rows dfu market) # top_articles_loop dfu rest
      else top_articles_loop dfu rest)"

definition top_articles_list :: "dataframe \<Rightarrow> dataframe list" where
  "top_articles_list dfu = top_articles_loop dfu market_order"

definition top_articles :: "dataframe \<Rightarrow> dataframe option" where
  "top_articles dfu =
     (if top_articles_list dfu \<noteq> [] then Some (concat (top_articles_list dfu)) else None)"

text \<open>The whole of lines 403-422 from the filtered collection.\<close>

definition curated_table :: "dataframe \<Rightarrow> dataframe option" where
  "curated_table dff = top_articles (exclude_sources (df_unique dff))"

text \<open>
  The specification's description of the normalization, "lowercase, strip
  non-alphanumeric characters", read literally: only letters and digits survive. It is
  defined for comparison with \<open>title_normalized\<close> and is not part of the script.
\<close>

definition spec_alphanumeric :: "char \<Rightarrow> bool" where
  "spec_alphanumeric c =
     (let n = (of_char c :: nat)
      in (97 \<le> n \<and> n \<le> 122) \<or> (65 \<le> n \<and> n \<le> 90) \<or> (48 \<le> n \<and> n \<le> 57))"

definition spec_title_normalized :: "article \<Rightarrow> string" where
  "spec_title_normalized r = filter spec_alphanumeric (map lower_char (title r))"

section \<open>Example collections\<close>

text \<open>Concrete records and collections on which the definitions are evaluated.\<close>

definition example_article :: "string \<Rightarrow> string \<Rightarrow> string \<Rightarrow> int \<Rightarrow> article" where
  "example_article t m c s =
     \<lparr>title = t, market_name = m, category = c, relevance_score = s,
      impact_level = ''medium'', key_regulators = None, source_name = ''Reuters'',
      what_happened = ''summary''\<rparr>"

definition six_japan :: dataframe where
  "six_japan =
     [example_article ''a'' ''Japan'' ''other'' 1, example_article ''b'' ''Japan'' ''other'' 5,
      example_article ''c'' ''Japan'' ''other'' 3, example_article ''d'' ''Japan'' ''other'' 7,
      example_article ''e'' ''Japan'' ''other'' 7, example_article ''f'' ''Japan'' ''other'' 2]"

definition uk_4 :: article where
  "uk_4 = example_article ''g'' ''United Kingdom'' ''other'' 4"

definition snapshot_dir :: "string list" where
  "snapshot_dir =
     [''analyzed_articles_20240101_120000.json'', ''notes.txt'',
      ''analyzed_articles_20240301_090000.json'',
      ''analyzed_articles_20240201_090000.json'']"

text \<open>
  An instance of the parameter \<open>round_mean\<close> of the geographic loop, for evaluation: on a
  group whose mean is a whole number, rounding the mean to one decimal gives that
  number, which is what this function returns. The groups on which it is evaluated below
  are of that kind.
\<close>

definition whole_mean :: "int list \<Rightarrow> int" where
  "whole_mean scores = sum_list scores div int (length scores)"

definition canada_news :: article where
  "canada_news = example_article ''Bank of Canada holds'' ''Canada'' ''monetary_policy'' 7"

definition cross_border_only :: dataframe where
  "cross_border_only =
     [example_article ''Outbound investment rule'' ''Japan'' ''cross_border_investment'' 8,
      example_article ''Rate decision'' ''Japan'' ''monetary_policy'' 6]"

definition cross_border_and_other :: dataframe where
  "cross_border_and_other =
     [example_article ''Outbound investment rule'' ''Japan'' ''cross_border_investment'' 8,
      example_article ''Rate decision'' ''France'' ''monetary_policy'' 6,
      example_article ''Misc'' ''Japan'' ''other'' 2,
      example_article ''Screening'' ''France'' ''cross_border_investment'' 5,
      example_article ''Review'' ''Japan'' ''cross_border_investment'' 4]"

definition ecb_first :: article where
  "ecb_first = example_article ''ECB Raises Rates!'' ''Germany'' ''monetary_policy'' 8"

definition ecb_second :: article where
  "ecb_second = example_article ''ecb raises rates'' ''France'' ''monetary_policy'' 6"

definition ecb_pair :: dataframe where
  "ecb_pair = [ecb_first, ecb_second]"

definition rate_cut_spaced :: article where
  "rate_cut_spaced = example_article ''Rate Cut'' ''Japan'' ''monetary_policy'' 8"

definition rate_cut_joined :: article where
  "rate_cut_joined = example_article ''RateCut'' ''Japan'' ''monetary_policy'' 6"

section \<open>Lemmas on the shared operations\<close>

lemma drop_duplicates_from_subseq: "subseq (drop_duplicates_from key seen xs) xs"
  by (induction xs arbitrary: seen) auto

lemma drop_duplicates_from_set: "set (drop_duplicates_from key seen xs) \<subseteq> set xs"
  by (induction xs arbitrary: seen) auto

lemma drop_duplicates_from_keys:
  "key ` set (drop_duplicates_from key seen xs) = key ` set xs - set seen"
  by (induction xs arbitrary: seen) auto

lemma drop_duplicates_from_distinct: "distinct (map key (drop_duplicates_from key seen xs))"
  by (induction xs arbitrary: seen) (auto simp: drop_duplicates_from_keys)

lemma drop_duplicates_from_idem:
  "drop_duplicates_from key seen (drop_duplicates_from key seen xs) =
   drop_duplicates_from key seen xs"
  by (induction xs arbitrary: seen) auto

lemma drop_duplicates_from_snoc:
  "drop_duplicates_from key seen (xs @ [x]) =
   drop_duplicates_from key seen xs @ (if key x \<in> set seen \<union> key ` set xs then [] else [x])"
  by (induction xs arbitrary: seen) auto

lemma unique_set: "set (unique xs) = set xs"
  using drop_duplicates_from_keys [of "\<lambda>x. x" "[]" xs]
  by (simp add: unique_def drop_duplicates_def)

lemma unique_distinct: "distinct (unique xs)"
  using drop_duplicates_from_distinct [of "\<lambda>x. x" "[]" xs]
  by (simp add: unique_def drop_duplicates_def)

lemma sort_values_desc_mset: "mset (sort_values_desc col rows) = mset rows"
  by (simp add: sort_values_desc_def)

lemma sort_values_desc_set: "set (sort_values_desc col rows) = set rows"
  by (simp add: sort_values_desc_def)

lemma sort_values_desc_length: "length (sort_values_desc col rows) = length rows"
  by (simp add: sort_values_desc_def)

lemma sort_values_desc_sorted:
  "sorted_wrt (\<lambda>a b. col a \<ge> col b) (sort_values_desc col rows)"
proof -
  have "sorted (map (\<lambda>r. - col r) (sort_key (\<lambda>r. - col r) rows))"
    by (rule sorted_sort_key)
  then show ?thesis
    by (simp add: sort_values_desc_def sorted_wrt_map sorted_wrt_iff_nth_less)
qed

lemma sum_list_sort_values_desc:
  "sum_list (map (g :: 'a \<Rightarrow> nat) (sort_values_desc col rows)) = sum_list (map g rows)"
proof -
  have "mset (map g (sort_values_desc col rows)) = mset (map g rows)"
    by (simp add: sort_values_desc_mset)
  then show ?thesis
    by (metis sum_mset_sum_list)
qed

text \<open>Splitting a list into the groups of a key: the group sizes add up to its length.\<close>

lemma count_one_distinct:
  "distinct ms \<Longrightarrow>
   sum_list (map (\<lambda>m. if a = m then 1 else 0) ms) = (if a \<in> set ms then 1 else (0::nat))"
  by (induction ms) auto

lemma group_sizes_sum:
  "distinct ms \<Longrightarrow> f ` set xs \<subseteq> set ms \<Longrightarrow>
   sum_list (map (\<lambda>m. length (filter (\<lambda>x. f x = m) xs)) ms) = length xs"
proof (induction xs)
  case Nil
  then show ?case by simp
next
  case (Cons x xs)
  have "sum_list (map (\<lambda>m. length (filter (\<lambda>y. f y = m) (x # xs))) ms) =
        sum_list (map (\<lambda>m. (if f x = m then 1 else 0) + length (filter (\<lambda>y. f y = m) xs)) ms)"
    by (rule arg_cong [where f = sum_list]) simp
  also have "\<dots> = sum_list (map (\<lambda>m. if f x = m then 1 else 0) ms) +
                   sum_list (map (\<lambda>m. length (filter (\<lambda>y. f y = m) xs)) ms)"
    by (simp add: sum_list_addf)
  also have "\<dots> = 1 + length xs"
    using Cons by (simp add: count_one_distinct)
  finally show ?case by simp
qed

lemma market_rows_nonempty: "market_rows dfu m \<noteq> [] \<longleftrightarrow> m \<in> market_name ` set dfu"
  by (auto simp: market_rows_def filter_empty_conv)

section \<open>Filtering: theorems\<close>

text \<open>
  C1. For every filter state and every record collection, the filtered collection is a
  sub-collection of the full one (its rows are rows of the full collection, in the same
  order, so it is no longer than the full collection), and every record in it satisfies
  the four predicates together: market selected, relevance at least the minimum, category
  selected, impact level selected. Conversely every record of the full collection that
  satisfies the four is in it.
\<close>

theorem df_filtered_subset_and_sound:
  "subseq (df_filtered df fs) df \<and>
   set (df_filtered df fs) \<subseteq> set df \<and>
   length (df_filtered df fs) \<le> length df \<and>
   (\<forall>r \<in> set (df_filtered df fs).
      market_name r \<in> set (selected_markets fs) \<and>
      relevance_score r \<ge> min_relevance fs \<and>
      category r \<in> set (selected_categories fs) \<and>
      impact_level r \<in> set (selected_impact fs)) \<and>
   (\<forall>r \<in> set df.
      market_name r \<in> set (selected_markets fs) \<and>
      relevance_score r \<ge> min_relevance fs \<and>
      category r \<in> set (selected_categories fs) \<and>
      impact_level r \<in> set (selected_impact fs) \<longrightarrow> r \<in> set (df_filtered df fs))"
  by (simp add: df_filtered_def filter_mask_def isin_def)

theorem df_filtered_subset_and_sound_witness:
  "df_filtered [japan_9, japan_3] (select_all\<lparr>min_relevance := 5\<rparr>) = [japan_9] \<and>
   length (df_filtered [japan_9, japan_3] (select_all\<lparr>min_relevance := 5\<rparr>)) \<le> 2 \<and>
   market_name japan_9 \<in> set (selected_markets (select_all\<lparr>min_relevance := 5\<rparr>)) \<and>
   relevance_score japan_9 \<ge> min_relevance (select_all\<lparr>min_relevance := 5\<rparr>)"
  using df_filtered_subset_and_sound [of "[japan_9, japan_3]" "select_all\<lparr>min_relevance := 5\<rparr>"]
  by (simp add: df_filtered_def filter_mask_def isin_def japan_9_def japan_3_def select_all_def)

text \<open>
  C2. For every record collection, if the selection on one of the three multi-select
  dimensions (markets, categories, impact levels) is empty, the filtered collection is
  empty: an empty selection selects nothing, it does not stand for "all".
\<close>

theorem df_filtered_empty_selection:
  "selected_markets fs = [] \<or> selected_categories fs = [] \<or> selected_impact fs = []
   \<Longrightarrow> df_filtered df fs = []"
  by (auto simp: df_filtered_def filter_mask_def isin_def)

theorem df_filtered_empty_selection_witness:
  "selected_markets (select_all\<lparr>selected_markets := []\<rparr>) = [] \<and>
   df_filtered [japan_9, japan_3] (select_all\<lparr>selected_markets := []\<rparr>) = []"
  using df_filtered_empty_selection [of "select_all\<lparr>selected_markets := []\<rparr>" "[japan_9, japan_3]"]
  by simp

section \<open>Loading the snapshot: theorems\<close>

lemma py_index_last: "xs \<noteq> [] \<Longrightarrow> py_index xs (- 1) = Inr (last xs)"
proof -
  assume ne: "xs \<noteq> []"
  then have len: "Suc 0 \<le> length xs" by (cases xs) simp_all
  then have "nat (int (length xs) + - 1) = length xs - 1"
    by simp
  with ne len show ?thesis
    by (simp add: py_index_def last_conv_nth)
qed

lemma py_index_empty: "py_index [] i = Inl IndexError"
  by (simp add: py_index_def)

lemma py_index_in_range:
  "- int (length xs) \<le> i \<Longrightarrow> i < 0 \<Longrightarrow> \<exists>x. py_index xs i = Inr x"
  by (simp add: py_index_def)

lemma split_on_nonempty: "split_on c s \<noteq> []"
  by (induction s) (auto split: list.splits)

lemma split_on_length: "length (split_on c s) = Suc (length (filter (\<lambda>x. x = c) s))"
  by (induction s) (auto simp: split_on_nonempty split: list.splits)

lemma stem_json: "body \<noteq> [] \<Longrightarrow> stem (body @ ''.json'') = body"
  by (simp add: stem_def rfind_def)

lemma fnmatch_star_split:
  assumes "fnmatch_star pre suf name"
  shows "\<exists>rest. name = pre @ rest @ suf"
proof -
  from assms have len: "length pre + length suf \<le> length name"
    and pre: "take (length pre) name = pre"
    and suf: "drop (length name - length suf) name = suf"
    by (simp_all add: fnmatch_star_def)
  define k where "k = length name - length suf - length pre"
  have "drop (length pre) name = take k (drop (length pre) name) @ drop k (drop (length pre) name)"
    by (rule append_take_drop_id [symmetric])
  moreover have "drop k (drop (length pre) name) = drop (length name - length suf) name"
    using len by (simp add: k_def)
  ultimately have "drop (length pre) name = take k (drop (length pre) name) @ suf"
    using suf by simp
  moreover have "name = take (length pre) name @ drop (length pre) name" by simp
  ultimately have "name = pre @ take k (drop (length pre) name) @ suf"
    using pre by simp
  then show ?thesis by blast
qed

lemma label_parts:
  assumes "fnmatch_star ''analyzed_articles_'' ''.json'' name"
  shows "3 \<le> length (split_on (CHR ''_'') (stem name))"
proof -
  from fnmatch_star_split [OF assms] obtain rest where
    n: "name = ''analyzed_articles_'' @ rest @ ''.json''" by blast
  have "stem name = ''analyzed_articles_'' @ rest"
    using stem_json [of "''analyzed_articles_'' @ rest"] n by simp
  then show ?thesis
    by (simp add: split_on_length)
qed

lemma latest_file_cases:
  "latest_file names =
     (if glob names = [] then Inl IndexError else Inr (last (sort (glob names))))"
proof (cases "glob names = []")
  case True
  then show ?thesis by (simp add: latest_file_def py_index_empty)
next
  case False
  then have "sort (glob names) \<noteq> []"
    by (metis length_sort length_0_conv)
  then have "py_index (sort (glob names)) (- 1) = Inr (last (sort (glob names)))"
    by (rule py_index_last)
  with False show ?thesis by (simp add: latest_file_def)
qed

lemma last_sort_greatest:
  "xs \<noteq> [] \<Longrightarrow> last (sort xs) \<in> set xs \<and> (\<forall>x \<in> set xs. x \<le> last (sort (xs :: string list)))"
proof -
  assume "xs \<noteq> []"
  then have ne: "sort xs \<noteq> []"
    by (metis length_sort length_0_conv)
  then have mem: "last (sort xs) \<in> set (sort xs)" by (rule last_in_set)
  have "x \<le> last (sort xs)" if "x \<in> set xs" for x
  proof -
    from that have "x \<in> set (sort xs)" by simp
    then obtain i where i: "i < length (sort xs)" and x: "sort xs ! i = x"
      by (metis in_set_conv_nth)
    have "sort xs ! i \<le> sort xs ! (length (sort xs) - 1)"
      using i by (intro sorted_nth_mono) auto
    with x ne show ?thesis by (simp add: last_conv_nth)
  qed
  with mem show ?thesis by simp
qed


lemma load_data_after_read:
  assumes "fnmatch_star ''analyzed_articles_'' ''.json'' file"
    and "latest_file names = Inr file"
    and "read_json file = Inr df"
  shows "\<exists>label. load_data read_json names = Inr (df, label)"
proof -
  let ?parts = "split_on (CHR ''_'') (stem file)"
  from label_parts [OF assms(1)] have len: "3 \<le> length ?parts" .
  then have "- int (length ?parts) \<le> - 2" and "- int (length ?parts) \<le> - 1"
    by simp_all
  then obtain d t where "py_index ?parts (- 2) = Inr d" and "py_index ?parts (- 1) = Inr t"
    using py_index_in_range [of ?parts "- 2"] py_index_in_range [of ?parts "- 1"] by auto
  with assms(2,3) show ?thesis
    by (simp add: load_data_def)
qed

text \<open>
  C5 (as amended). For every directory listing: when no name matches
  \<open>analyzed_articles_*.json\<close>, selecting the file fails with Python's \<open>IndexError\<close> (the
  last element of an empty sorted list), and so does \<open>load_data\<close>, whatever the reader
  would do; it never succeeds. When some name matches, the file selected is a matching
  name of the directory that is greatest among the matching names in lexicographic
  order, \<open>load_data\<close> fails with the reader's error when reading that file fails, and
  otherwise returns the collection read from that file with a label.
\<close>

theorem load_data_latest_or_IndexError:
  "(glob names = [] \<longrightarrow>
      latest_file names = Inl IndexError \<and> load_data read_json names = Inl IndexError) \<and>
   (glob names \<noteq> [] \<longrightarrow>
      (\<exists>file. latest_file names = Inr file \<and>
         file \<in> set names \<and>
         fnmatch_star ''analyzed_articles_'' ''.json'' file \<and>
         (\<forall>g \<in> set names. fnmatch_star ''analyzed_articles_'' ''.json'' g \<longrightarrow> g \<le> file) \<and>
         (\<forall>e. read_json file = Inl e \<longrightarrow> load_data read_json names = Inl e) \<and>
         (\<forall>df. read_json file = Inr df \<longrightarrow>
            (\<exists>label. load_data read_json names = Inr (df, label)))))"
proof (intro conjI impI)
  assume "glob names = []"
  then show "latest_file names = Inl IndexError"
    by (simp add: latest_file_cases)
  then show "load_data read_json names = Inl IndexError"
    by (simp add: load_data_def)
next
  assume ne: "glob names \<noteq> []"
  let ?file = "last (sort (glob names))"
  have latest: "latest_file names = Inr ?file"
    using ne by (simp add: latest_file_cases)
  from last_sort_greatest [OF ne]
  have mem: "?file \<in> set (glob names)" and top: "\<forall>g \<in> set (glob names). g \<le> ?file"
    by simp_all
  from mem have in_dir: "?file \<in> set names"
    and matches: "fnmatch_star ''analyzed_articles_'' ''.json'' ?file"
    by (simp_all add: glob_def)
  from top have greatest:
    "\<forall>g \<in> set names. fnmatch_star ''analyzed_articles_'' ''.json'' g \<longrightarrow> g \<le> ?file"
    by (simp add: glob_def)
  have failed: "\<forall>e. read_json ?file = Inl e \<longrightarrow> load_data read_json names = Inl e"
    using latest by (simp add: load_data_def)
  have loaded: "\<forall>df. read_json ?file = Inr df \<longrightarrow>
      (\<exists>label. load_data read_json names = Inr (df, label))"
    using load_data_after_read [OF matches latest] by blast
  from latest in_dir matches greatest failed loaded
  show "\<exists>file. latest_file names = Inr file \<and>
         file \<in> set names \<and>
         fnmatch_star ''analyzed_articles_'' ''.json'' file \<and>
         (\<forall>g \<in> set names. fnmatch_star ''analyzed_articles_'' ''.json'' g \<longrightarrow> g \<le> file) \<and>
         (\<forall>e. read_json file = Inl e \<longrightarrow> load_data read_json names = Inl e) \<and>
         (\<forall>df. read_json file = Inr df \<longrightarrow>
            (\<exists>label. load_data read_json names = Inr (df, label)))"
    by blast
qed

text \<open>
  A directory with three snapshots and one other file: the latest snapshot is chosen
  and its date and time make the label. A directory without a snapshot: \<open>IndexError\<close>.
\<close>

theorem load_data_latest_or_IndexError_witness:
  "glob snapshot_dir \<noteq> [] \<and>
   latest_file snapshot_dir = Inr ''analyzed_articles_20240301_090000.json'' \<and>
   load_data (\<lambda>file. Inr [japan_9]) snapshot_dir = Inr ([japan_9], ''20240301_090000'') \<and>
   glob [''notes.txt''] = [] \<and>
   load_data (\<lambda>file. Inr [japan_9]) [''notes.txt''] = Inl IndexError"
proof -
  have a: "glob snapshot_dir \<noteq> []"
    by (simp add: glob_def fnmatch_star_def snapshot_dir_def)
  have b: "latest_file snapshot_dir = Inr ''analyzed_articles_20240301_090000.json''"
    by (simp add: latest_file_def glob_def fnmatch_star_def py_index_def snapshot_dir_def)
  have c: "load_data (\<lambda>file. Inr [japan_9]) snapshot_dir =
           Inr ([japan_9], ''20240301_090000'')"
    by (simp add: load_data_def b stem_def rfind_def py_index_def)
  have d: "glob [''notes.txt''] = []"
    by (simp add: glob_def fnmatch_star_def)
  from load_data_latest_or_IndexError [of "[''notes.txt'']" "\<lambda>file. Inr [japan_9]"] d
  have "load_data (\<lambda>file. Inr [japan_9]) [''notes.txt''] = Inl IndexError"
    by blast
  with a b c d show ?thesis
    by simp
qed

text \<open>
  The claim as stated fails in the name of the error: with no matching file the script
  raises \<open>IndexError\<close>; nothing in it raises an error called NoSnapshotFound.
\<close>

theorem load_data_no_snapshot_counterexample:
  "glob [''notes.txt''] = [] \<and>
   load_data (\<lambda>file. Inr [japan_9]) [''notes.txt''] = Inl IndexError \<and>
   load_data (\<lambda>file. Inr [japan_9]) [''notes.txt''] \<noteq> Inl NoSnapshotFound"
  by (simp add: load_data_def latest_file_def glob_def fnmatch_star_def py_index_def)

section \<open>Key insights: theorems\<close>

text \<open>
  With a loaded and a filtered collection that are both non-empty the four metrics are
  computed; with an empty filtered collection the computation raises.
\<close>

lemma key_metrics_empty_filtered: "key_metrics df [] = Inl ZeroDivisionError"
  by (simp add: key_metrics_def py_truediv_def)

lemma key_metrics_nonempty:
  "dff \<noteq> [] \<Longrightarrow> df \<noteq> [] \<Longrightarrow> \<exists>k. key_metrics df dff = Inr k"
  by (simp add: key_metrics_def py_truediv_def Let_def)

text \<open>
  C3. The claim is that with an empty filtered collection the two percentages are a
  defined sentinel and the key metrics never crash. The script does otherwise: with
  the two Japan records loaded and no market selected the filtered collection is empty,
  the share of the total is 0 / 2, and the share of high-impact articles is 0 / 0,
  which raises \<open>ZeroDivisionError\<close>; and so it is for every loaded collection once the
  filtered one is empty.
\<close>

theorem key_metrics_empty_filter_raises:
  "df_filtered [japan_9, japan_3] (select_all\<lparr>selected_markets := []\<rparr>) = [] \<and>
   key_metrics [japan_9, japan_3]
     (df_filtered [japan_9, japan_3] (select_all\<lparr>selected_markets := []\<rparr>)) =
     Inl ZeroDivisionError \<and>
   (\<forall>df. key_metrics df [] = Inl ZeroDivisionError)"
proof -
  have "df_filtered [japan_9, japan_3] (select_all\<lparr>selected_markets := []\<rparr>) = []"
    by (simp add: df_filtered_def filter_mask_def isin_def select_all_def)
  then show ?thesis
    by (simp add: key_metrics_empty_filtered)
qed

section \<open>Category by market: theorems\<close>

text \<open>
  The cells of the cross-tabulation are the counts per market and category, and they add
  up to the size of the collection; ordering the rows and folding one column into
  another keep the total.
\<close>

lemma cell_total_crosstab: "cell_total (crosstab dff) = length dff"
proof -
  let ?ms = "sort (remdups (map market_name dff))"
  let ?cs = "sort (remdups (map category dff))"
  have inner: "sum_list (map (\<lambda>m. length (filter (\<lambda>r. category r = c) (market_rows dff m))) ?ms) =
               length (filter (\<lambda>r. category r = c) dff)" for c
  proof -
    have "filter (\<lambda>r. category r = c) (market_rows dff m) =
          filter (\<lambda>r. market_name r = m) (filter (\<lambda>r. category r = c) dff)" for m
      by (simp add: market_rows_def conj_commute)
    then have "sum_list (map (\<lambda>m. length (filter (\<lambda>r. category r = c) (market_rows dff m))) ?ms) =
          sum_list (map (\<lambda>m. length (filter (\<lambda>r. market_name r = m)
                                   (filter (\<lambda>r. category r = c) dff))) ?ms)"
      by simp
    also have "\<dots> = length (filter (\<lambda>r. category r = c) dff)"
      by (rule group_sizes_sum) auto
    finally show ?thesis .
  qed
  have "cell_total (crosstab dff) =
        sum_list (map (\<lambda>c. length (filter (\<lambda>r. category r = c) dff)) ?cs)"
    by (simp add: cell_total_def crosstab_def Let_def comp_def inner)
  also have "\<dots> = length dff"
    by (rule group_sizes_sum) auto
  finally show ?thesis .
qed

lemma sum_list_permuted:
  assumes "mset order = mset [0..<length col]"
  shows "sum_list (map (\<lambda>i. col ! i) order) = sum_list (col :: nat list)"
proof -
  have "mset (map (\<lambda>i. col ! i) order) = mset (map (\<lambda>i. col ! i) [0..<length col])"
    using assms by (simp only: mset_map)
  then have "sum_list (map (\<lambda>i. col ! i) order) = sum_list (map (\<lambda>i. col ! i) [0..<length col])"
    by (metis sum_mset_sum_list)
  then show ?thesis by (simp add: map_nth)
qed

lemma cell_total_reorder:
  assumes "\<forall>(c, col) \<in> set (cf_columns cf). length col = length (cf_index cf)"
    and "mset order = mset [0..<length (cf_index cf)]"
  shows "cell_total (reorder_rows cf order) = cell_total cf"
proof -
  have one: "sum_list (map (\<lambda>i. snd x ! i) order) = sum_list (snd x)"
    if "x \<in> set (cf_columns cf)" for x
    using that assms by (intro sum_list_permuted) auto
  have eq: "map (\<lambda>x. sum_list (map (\<lambda>i. snd x ! i) order)) (cf_columns cf) =
            map (\<lambda>x. sum_list (snd x)) (cf_columns cf)"
    by (rule map_cong) (simp_all add: one)
  show ?thesis
    by (simp add: cell_total_def reorder_rows_def comp_def split_def eq)
qed


lemma sum_list_map2_add:
  "length xs = length ys \<Longrightarrow> sum_list (map2 (+) xs ys) = sum_list xs + sum_list (ys :: nat list)"
  by (induction xs ys rule: list_induct2) auto

lemma fold_columns_total:
  "distinct (map fst cols) \<Longrightarrow> a \<noteq> b \<Longrightarrow>
   sum_list (map (\<lambda>(c, col). sum_list col)
      (filter (\<lambda>(c, col). c \<noteq> b) (map (\<lambda>(c, old). (c, if c = a then new else old)) cols))) +
     (case map_of cols b of None \<Rightarrow> 0 | Some xb \<Rightarrow> sum_list xb) +
     (case map_of cols a of None \<Rightarrow> 0 | Some xa \<Rightarrow> sum_list xa) =
   sum_list (map (\<lambda>(c, col). sum_list col) cols) +
     (case map_of cols a of None \<Rightarrow> 0 | Some xa \<Rightarrow> sum_list (new :: nat list))"
proof (induction cols)
  case Nil
  then show ?case by simp
next
  case (Cons p cols)
  obtain c col where p: "p = (c, col)" by (cases p)
  from Cons.prems p have fresh: "map_of cols c = None"
    by (simp add: map_of_eq_None_iff)
  from Cons have ih:
    "sum_list (map (\<lambda>(c, col). sum_list col)
      (filter (\<lambda>(c, col). c \<noteq> b) (map (\<lambda>(c, old). (c, if c = a then new else old)) cols))) +
     (case map_of cols b of None \<Rightarrow> 0 | Some xb \<Rightarrow> sum_list xb) +
     (case map_of cols a of None \<Rightarrow> 0 | Some xa \<Rightarrow> sum_list xa) =
   sum_list (map (\<lambda>(c, col). sum_list col) cols) +
     (case map_of cols a of None \<Rightarrow> 0 | Some xa \<Rightarrow> sum_list new)"
    by simp
  show ?case
  proof (cases "c = a")
    case True
    with fresh ih p Cons.prems(2) show ?thesis by simp
  next
    case False
    note ca = this
    show ?thesis
    proof (cases "c = b")
      case True
      with fresh ih p Cons.prems(2) show ?thesis by simp
    next
      case False
      with ca fresh ih p show ?thesis by simp
    qed
  qed
qed


lemma crosstab_keys: "map fst (cf_columns (crosstab dff)) = sort (remdups (map category dff))"
  by (simp add: crosstab_def Let_def comp_def)

lemma crosstab_lengths:
  "\<forall>(c, col) \<in> set (cf_columns (crosstab dff)). length col = length (cf_index (crosstab dff))"
  by (auto simp: crosstab_def Let_def)

lemma sort_rows_keys: "map fst (cf_columns (sort_rows_by_sum cf)) = map fst (cf_columns cf)"
  by (simp add: sort_rows_by_sum_def reorder_rows_def comp_def split_def)

lemma sort_rows_lengths:
  "\<forall>(c, col) \<in> set (cf_columns (sort_rows_by_sum cf)).
     length col = length (cf_index (sort_rows_by_sum cf))"
  by (auto simp: sort_rows_by_sum_def reorder_rows_def)

lemma sort_rows_total:
  assumes "\<forall>(c, col) \<in> set (cf_columns cf). length col = length (cf_index cf)"
  shows "cell_total (sort_rows_by_sum cf) = cell_total cf"
  unfolding sort_rows_by_sum_def
  by (rule cell_total_reorder [OF assms]) (simp add: sort_values_desc_mset)

lemma category_market_frame:
  "map fst (cf_columns (sort_rows_by_sum (crosstab dff))) = sort (remdups (map category dff)) \<and>
   cell_total (sort_rows_by_sum (crosstab dff)) = length dff"
  by (simp add: sort_rows_keys crosstab_keys sort_rows_total [OF crosstab_lengths]
      cell_total_crosstab)

lemma get_column_cases:
  "get_column cf c = Inl KeyError \<longleftrightarrow> c \<notin> set (map fst (cf_columns cf))"
proof (cases "map_of (cf_columns cf) c")
  case None
  then have "c \<notin> fst ` set (cf_columns cf)"
    by (simp add: map_of_eq_None_iff)
  moreover from None have "get_column cf c = Inl KeyError"
    by (simp add: get_column_def)
  ultimately show ?thesis by simp
next
  case (Some col)
  then have "c \<in> fst ` set (cf_columns cf)"
    by (metis map_of_eq_None_iff option.distinct(1))
  with Some show ?thesis
    by (simp add: get_column_def)
qed

lemma category_market_no_cross_border:
  assumes "''cross_border_investment'' \<notin> category ` set dff"
  shows "category_market dff = Inr (sort_rows_by_sum (crosstab dff))"
proof -
  from assms have "''cross_border_investment'' \<notin>
      set (map fst (cf_columns (sort_rows_by_sum (crosstab dff))))"
    by (simp only: category_market_frame) simp
  then show ?thesis
    by (simp add: category_market_def Let_def)
qed

lemma category_market_KeyError:
  assumes "''cross_border_investment'' \<in> category ` set dff"
    and "''other'' \<notin> category ` set dff"
  shows "category_market dff = Inl KeyError"
proof -
  let ?cf = "sort_rows_by_sum (crosstab dff)"
  have keys: "set (map fst (cf_columns ?cf)) = category ` set dff"
    by (simp only: category_market_frame) simp
  with assms have "''cross_border_investment'' \<in> set (map fst (cf_columns ?cf))"
    and "get_column ?cf ''other'' = Inl KeyError"
    by (simp_all only: get_column_cases keys not_False_eq_True)
  then show ?thesis
    by (simp add: category_market_def Let_def)
qed

lemma sort_rows_column_length:
  "(c, col) \<in> set (cf_columns (sort_rows_by_sum cf)) \<Longrightarrow>
   length col = length (cf_index (sort_rows_by_sum cf))"
  using sort_rows_lengths [of cf] by blast

lemma fold_columns_gone:
  "b \<notin> fst ` set (filter (\<lambda>(c, col). c \<noteq> b) cols)"
  by (induction cols) auto

lemma fold_columns_other:
  "distinct (map fst cols) \<Longrightarrow> a \<noteq> b \<Longrightarrow> map_of cols a = Some xa \<Longrightarrow>
   map_of (filter (\<lambda>(c, col). c \<noteq> b) (map (\<lambda>(c, old). (c, if c = a then new else old)) cols)) a =
   Some new"
  by (induction cols) (auto split: if_splits)

lemma fold_columns_same_total:
  assumes "distinct (map fst cols)" and "a \<noteq> b"
    and "map_of cols a = Some xa" and "map_of cols b = Some xb"
    and "length xa = length (xb :: nat list)"
  shows "sum_list (map (\<lambda>(c, col). sum_list col)
      (filter (\<lambda>(c, col). c \<noteq> b)
         (map (\<lambda>(c, old). (c, if c = a then map2 (+) xa xb else old)) cols))) =
     sum_list (map (\<lambda>(c, col). sum_list col) cols)"
proof -
  from fold_columns_total [OF assms(1,2), of "map2 (+) xa xb"] assms(3,4)
  have "sum_list (map (\<lambda>(c, col). sum_list col)
      (filter (\<lambda>(c, col). c \<noteq> b)
         (map (\<lambda>(c, old). (c, if c = a then map2 (+) xa xb else old)) cols))) +
     sum_list xb + sum_list xa =
     sum_list (map (\<lambda>(c, col). sum_list col) cols) + sum_list (map2 (+) xa xb)"
    by simp
  with sum_list_map2_add [OF assms(5)] show ?thesis
    by simp
qed

lemma category_market_folded:
  assumes "''cross_border_investment'' \<in> category ` set dff"
    and "''other'' \<in> category ` set dff"
  shows "\<exists>cf other cross.
           get_column (sort_rows_by_sum (crosstab dff)) ''other'' = Inr other \<and>
           get_column (sort_rows_by_sum (crosstab dff)) ''cross_border_investment'' = Inr cross \<and>
           category_market dff = Inr cf \<and>
           get_column cf ''other'' = Inr (map2 (+) other cross) \<and>
           ''cross_border_investment'' \<notin> set (map fst (cf_columns cf)) \<and>
           cell_total cf = length dff"
proof -
  define cf where "cf = sort_rows_by_sum (crosstab dff)"
  define cols where "cols = cf_columns cf"
  have keys: "map fst cols = sort (remdups (map category dff))"
    unfolding cols_def cf_def by (simp only: category_market_frame)
  then have dist: "distinct (map fst cols)" by simp
  from keys have keyset: "fst ` set cols = category ` set dff"
    by (metis set_map set_remdups set_sort)
  have ne: "''other'' \<noteq> ''cross_border_investment''" by simp
  from assms keyset have "map_of cols ''other'' \<noteq> None"
    and "map_of cols ''cross_border_investment'' \<noteq> None"
    by (simp_all only: map_of_eq_None_iff not_not)
  then obtain other cross where
    other: "map_of cols ''other'' = Some other" and
    cross: "map_of cols ''cross_border_investment'' = Some cross"
    by blast
  from other have "(''other'', other) \<in> set cols" by (rule map_of_SomeD)
  then have l1: "length other = length (cf_index cf)"
    unfolding cols_def cf_def by (rule sort_rows_column_length)
  from cross have "(''cross_border_investment'', cross) \<in> set cols" by (rule map_of_SomeD)
  then have l2: "length cross = length (cf_index cf)"
    unfolding cols_def cf_def by (rule sort_rows_column_length)
  from l1 l2 have len: "length other = length cross" by simp
  define new where "new = map2 (+) other cross"
  define rcols where "rcols = filter (\<lambda>(c, col). c \<noteq> ''cross_border_investment'')
       (map (\<lambda>(c, old). (c, if c = ''other'' then new else old)) cols)"
  define res where "res = cf\<lparr>cf_columns := rcols\<rparr>"
  from assms(2) keyset have in_other: "''other'' \<in> set (map fst cols)" by simp
  from assms(1) keyset have in_cross: "''cross_border_investment'' \<in> set (map fst cols)"
    by simp
  have res_eq: "drop_column (set_column cf ''other'' new) ''cross_border_investment'' = res"
    using in_other by (simp add: drop_column_def set_column_def res_def rcols_def cols_def)
  have g1: "get_column cf ''other'' = Inr other"
    using other by (simp add: get_column_def cols_def)
  have g2: "get_column cf ''cross_border_investment'' = Inr cross"
    using cross by (simp add: get_column_def cols_def)
  have result: "category_market dff = Inr res"
    unfolding category_market_def Let_def cf_def [symmetric]
    using in_cross g1 g2 res_eq by (simp add: cols_def new_def)
  have "sum_list (map (\<lambda>(c, col). sum_list col) rcols) =
        sum_list (map (\<lambda>(c, col). sum_list col) cols)"
    unfolding rcols_def new_def
    by (rule fold_columns_same_total [OF dist ne other cross len])
  then have "cell_total res = cell_total cf"
    by (simp add: cell_total_def res_def cols_def)
  also have "cell_total cf = length dff"
    unfolding cf_def by (simp only: category_market_frame)
  finally have total: "cell_total res = length dff" .
  have "''cross_border_investment'' \<notin> fst ` set rcols"
    unfolding rcols_def by (rule fold_columns_gone)
  then have gone: "''cross_border_investment'' \<notin> set (map fst (cf_columns res))"
    by (simp add: res_def)
  have "map_of rcols ''other'' = Some new"
    unfolding rcols_def by (rule fold_columns_other [OF dist ne other])
  then have got: "get_column res ''other'' = Inr (map2 (+) other cross)"
    by (simp add: get_column_def res_def new_def)
  from g1 g2 result got gone total show ?thesis
    unfolding cf_def by blast
qed

lemma map_of_tabulate: "k \<in> set ks \<Longrightarrow> map_of (map (\<lambda>k. (k, f k)) ks) k = Some (f k)"
  by (induction ks) auto

lemma crosstab_cell:
  assumes "m \<in> market_name ` set dff" and "c \<in> category ` set dff"
  shows "cell (crosstab dff) m c =
         Some (length (filter (\<lambda>r. market_name r = m \<and> category r = c) dff))"
proof -
  let ?ms = "sort (remdups (map market_name dff))"
  let ?cs = "sort (remdups (map category dff))"
  let ?count = "\<lambda>c m. length (filter (\<lambda>r. category r = c) (market_rows dff m))"
  from assms have m: "m \<in> set ?ms" and c: "c \<in> set ?cs" by simp_all
  have col: "map_of (cf_columns (crosstab dff)) c = Some (map (?count c) ?ms)"
    using map_of_tabulate [OF c, of "\<lambda>c. map (?count c) ?ms"]
    by (simp add: crosstab_def Let_def)
  have "zip ?ms (map (?count c) ?ms) = map (\<lambda>m. (m, ?count c m)) ?ms"
    by (simp add: zip_map2 zip_same_conv_map)
  then have "map_of (zip ?ms (map (?count c) ?ms)) m = Some (?count c m)"
    using map_of_tabulate [OF m, of "?count c"] by simp
  moreover have "cf_index (crosstab dff) = ?ms"
    by (simp add: crosstab_def Let_def)
  ultimately have "cell (crosstab dff) m c = Some (?count c m)"
    by (simp add: cell_def col)
  then show ?thesis
    by (simp add: market_rows_def conj_commute)
qed

text \<open>
  Five records, three of them cross-border, one in the category other: the cross-border
  counts are added to the column other and the cross-border column is gone.
\<close>

lemma category_market_example:
  "category_market cross_border_and_other =
     Inr \<lparr>cf_index = [''Japan'', ''France''],
          cf_columns = [(''monetary_policy'', [0, 1]), (''other'', [3, 1])]\<rparr>"
  by (simp add: category_market_def sort_rows_by_sum_def crosstab_def reorder_rows_def
      row_sums_def sort_values_desc_def get_column_def set_column_def drop_column_def
      market_rows_def cross_border_and_other_def example_article_def)

text \<open>
  C4. The claim is that whenever the category cross_border_investment is present its
  counts are added into the category other, its column is removed, and the cells then
  add up to the size of the collection. The script does so when the filtered collection
  also has a record of category other (\<open>category_market_folded\<close>), and leaves the frame
  as it is when there is no cross-border record (\<open>category_market_no_cross_border\<close>). With
  a cross-border record and no record of category other, the frame has no column other,
  reading it raises \<open>KeyError\<close>, and no frame is produced: here on two Japan records, one
  cross-border and one on monetary policy.
\<close>

theorem category_market_missing_other_raises:
  "category_market cross_border_only = Inl KeyError"
  by (simp add: category_market_def sort_rows_by_sum_def crosstab_def reorder_rows_def
      row_sums_def sort_values_desc_def get_column_def market_rows_def
      cross_border_only_def example_article_def)

section \<open>Market summary: theorems\<close>

lemma groupby_counts_sum:
  "sum_list (map mo_article_count (groupby_count_mean dff)) = length dff"
proof -
  have "sum_list (map mo_article_count (groupby_count_mean dff)) =
        sum_list (map (\<lambda>m. length (filter (\<lambda>r. market_name r = m) dff))
                      (sort (remdups (map market_name dff))))"
    by (simp add: groupby_count_mean_def market_rows_def comp_def)
  also have "\<dots> = length dff"
    by (rule group_sizes_sum) auto
  finally show ?thesis .
qed

text \<open>
  C9. For every filtered collection, the market summary has exactly one row per market
  of the collection; each row holds the number of the market's articles and the mean of
  their relevance scores; the rows are in order of decreasing article count; and the
  counts of all rows add up to the size of the collection.
\<close>

theorem market_overview_counts:
  "set (map mo_market (market_overview dff)) = market_name ` set dff \<and>
   distinct (map mo_market (market_overview dff)) \<and>
   (\<forall>row \<in> set (market_overview dff).
      mo_article_count row = length (market_rows dff (mo_market row)) \<and>
      mo_avg_relevance row =
        of_int (sum_list (map relevance_score (market_rows dff (mo_market row)))) /
        of_nat (mo_article_count row)) \<and>
   sorted_wrt (\<lambda>a b. mo_article_count a \<ge> mo_article_count b) (market_overview dff) \<and>
   sum_list (map mo_article_count (market_overview dff)) = length dff"
proof -
  have markets: "set (map mo_market (market_overview dff)) = market_name ` set dff"
    by (simp add: market_overview_def sort_values_desc_set groupby_count_mean_def image_image)
  have "mset (map mo_market (market_overview dff)) = mset (map mo_market (groupby_count_mean dff))"
    by (simp add: market_overview_def sort_values_desc_mset)
  moreover have "distinct (map mo_market (groupby_count_mean dff))"
    by (simp add: groupby_count_mean_def comp_def)
  ultimately have dist: "distinct (map mo_market (market_overview dff))"
    by (metis mset_eq_imp_distinct_iff)
  have rows: "\<forall>row \<in> set (market_overview dff).
      mo_article_count row = length (market_rows dff (mo_market row)) \<and>
      mo_avg_relevance row =
        of_int (sum_list (map relevance_score (market_rows dff (mo_market row)))) /
        of_nat (mo_article_count row)"
    by (auto simp: market_overview_def sort_values_desc_set groupby_count_mean_def)
  have "sorted_wrt (\<lambda>a b. int (mo_article_count a) \<ge> int (mo_article_count b))
          (market_overview dff)"
    unfolding market_overview_def by (rule sort_values_desc_sorted)
  then have srt:
    "sorted_wrt (\<lambda>a b. mo_article_count a \<ge> mo_article_count b) (market_overview dff)"
    by simp
  have total: "sum_list (map mo_article_count (market_overview dff)) = length dff"
    by (simp add: market_overview_def sum_list_sort_values_desc groupby_counts_sum)
  from markets dist rows srt total show ?thesis by blast
qed

text \<open>
  The specification's example: of the two Japan records with relevance 9 and 3, the
  filter with minimum relevance 5 keeps the first, and the summary is the one row
  (Japan, 1, 9).
\<close>

theorem market_overview_counts_witness:
  "market_overview (df_filtered [japan_9, japan_3] (select_all\<lparr>min_relevance := 5\<rparr>)) =
     [\<lparr>mo_market = ''Japan'', mo_article_count = 1, mo_avg_relevance = 9\<rparr>] \<and>
   sum_list (map mo_article_count
      (market_overview (df_filtered [japan_9, japan_3] (select_all\<lparr>min_relevance := 5\<rparr>)))) =
     length (df_filtered [japan_9, japan_3] (select_all\<lparr>min_relevance := 5\<rparr>))"
proof -
  have f: "df_filtered [japan_9, japan_3] (select_all\<lparr>min_relevance := 5\<rparr>) = [japan_9]"
    by (simp add: df_filtered_def filter_mask_def isin_def japan_9_def japan_3_def
        select_all_def)
  have m: "market_overview [japan_9] =
     [\<lparr>mo_market = ''Japan'', mo_article_count = 1, mo_avg_relevance = 9\<rparr>]"
    by (simp add: market_overview_def groupby_count_mean_def sort_values_desc_def
        market_rows_def japan_9_def)
  from market_overview_counts [of "[japan_9]"] f m show ?thesis
    by simp
qed

section \<open>Geographic view: theorems\<close>

lemma first_max_None: "first_max ps = None \<longleftrightarrow> ps = []"
  by (induction ps) (auto split: option.splits)

lemma unique_empty: "unique xs = [] \<longleftrightarrow> xs = []"
  using unique_set [of xs] by (metis set_empty)

lemma counter_empty: "counter xs = [] \<longleftrightarrow> xs = []"
  by (simp add: counter_def unique_empty)

lemma top_category_exists:
  "m \<in> market_name ` set dff \<Longrightarrow>
   \<exists>top. first_max (counter (map category (market_rows dff m))) = Some top"
proof -
  assume "m \<in> market_name ` set dff"
  then have "market_rows dff m \<noteq> []" by (simp only: market_rows_nonempty)
  then have "counter (map category (market_rows dff m)) \<noteq> []"
    by (simp add: counter_empty)
  then have "first_max (counter (map category (market_rows dff m))) \<noteq> None"
    by (simp add: first_max_None)
  then show ?thesis by auto
qed

lemma map_data_loop_unmapped:
  "set ms \<subseteq> market_name ` set dff \<Longrightarrow> \<exists>m \<in> set ms. map_of country_iso m = None \<Longrightarrow>
   map_data_loop round_mean dff ms = Inl KeyError"
proof (induction ms)
  case Nil
  then show ?case by simp
next
  case (Cons m ms)
  from Cons.prems(1) have "m \<in> market_name ` set dff" by simp
  from top_category_exists [OF this] obtain top where
    top: "first_max (counter (map category (market_rows dff m))) = Some top" by blast
  show ?case
  proof (cases "map_of country_iso m")
    case None
    with top show ?thesis by (simp add: Let_def)
  next
    case (Some code)
    with Cons.prems(2) have "\<exists>m \<in> set ms. map_of country_iso m = None" by auto
    with Cons have "map_data_loop round_mean dff ms = Inl KeyError" by simp
    with top Some show ?thesis by (simp add: Let_def)
  qed
qed

lemma map_data_loop_mapped:
  "set ms \<subseteq> market_name ` set dff \<Longrightarrow> \<forall>m \<in> set ms. map_of country_iso m \<noteq> None \<Longrightarrow>
   \<exists>rows. map_data_loop round_mean dff ms = Inr rows \<and> map gr_market rows = ms \<and>
     (\<forall>row \<in> set rows.
        map_of country_iso (gr_market row) = Some (gr_iso_code row) \<and>
        gr_article_count row = length (market_rows dff (gr_market row)) \<and>
        gr_avg_relevance row = round_mean (map relevance_score (market_rows dff (gr_market row))) \<and>
        gr_high_impact_count row =
          length (filter (\<lambda>r. impact_level r = ''high'') (market_rows dff (gr_market row))))"
proof (induction ms)
  case Nil
  then show ?case by simp
next
  case (Cons m ms)
  from Cons.prems(1) have "m \<in> market_name ` set dff" by simp
  from top_category_exists [OF this] obtain top where
    top: "first_max (counter (map category (market_rows dff m))) = Some top" by blast
  from Cons.prems(2) obtain code where code: "map_of country_iso m = Some code" by auto
  from Cons obtain rows where rows: "map_data_loop round_mean dff ms = Inr rows"
    and markets: "map gr_market rows = ms"
    and each: "\<forall>row \<in> set rows.
        map_of country_iso (gr_market row) = Some (gr_iso_code row) \<and>
        gr_article_count row = length (market_rows dff (gr_market row)) \<and>
        gr_avg_relevance row = round_mean (map relevance_score (market_rows dff (gr_market row))) \<and>
        gr_high_impact_count row =
          length (filter (\<lambda>r. impact_level r = ''high'') (market_rows dff (gr_market row)))"
    by auto
  from top code rows markets each show ?case
    by (simp add: Let_def)
qed

text \<open>
  C6 (as amended). The statement is about the block of lines 313-346 taken alone, as a
  function of the filtered collection; in a whole run of the script a market outside
  the five already raises \<open>KeyError\<close> at line 191, in the first tab, before this block
  runs. For every filtered collection: if it holds a record whose market is not one of
  the five keys of the country table, the geographic aggregation fails with Python's
  \<open>KeyError\<close> and emits no summary records at all, so the market is not silently dropped.
  If every market is a key of the table, the aggregation succeeds with one summary
  record per market of the collection, in order of first appearance, each with the
  market's code from the table, its number of articles, the rounded mean that the
  script computes from their relevance scores, and the number of its high-impact
  articles.
\<close>

theorem map_data_unmapped_KeyError:
  "((\<exists>r \<in> set dff. market_name r \<notin> fst ` set country_iso) \<longrightarrow>
      map_data round_mean dff = Inl KeyError) \<and>
   ((\<forall>r \<in> set dff. market_name r \<in> fst ` set country_iso) \<longrightarrow>
      (\<exists>rows. map_data round_mean dff = Inr rows \<and>
         map gr_market rows = unique (map market_name dff) \<and>
         (\<forall>row \<in> set rows.
            map_of country_iso (gr_market row) = Some (gr_iso_code row) \<and>
            gr_article_count row = length (market_rows dff (gr_market row)) \<and>
            gr_avg_relevance row =
              round_mean (map relevance_score (market_rows dff (gr_market row))) \<and>
            gr_high_impact_count row =
              length (filter (\<lambda>r. impact_level r = ''high'')
                        (market_rows dff (gr_market row))))))"
proof (intro conjI impI)
  have sub: "set (unique (map market_name dff)) \<subseteq> market_name ` set dff"
    by (simp add: unique_set)
  {
    assume "\<exists>r \<in> set dff. market_name r \<notin> fst ` set country_iso"
    then have "\<exists>m \<in> set (unique (map market_name dff)). map_of country_iso m = None"
      by (auto simp: unique_set map_of_eq_None_iff)
    with sub show "map_data round_mean dff = Inl KeyError"
      unfolding map_data_def by (rule map_data_loop_unmapped)
  }
  {
    assume "\<forall>r \<in> set dff. market_name r \<in> fst ` set country_iso"
    then have "\<forall>m \<in> set (unique (map market_name dff)). map_of country_iso m \<noteq> None"
      by (auto simp: unique_set map_of_eq_None_iff)
    with sub show "\<exists>rows. map_data round_mean dff = Inr rows \<and>
         map gr_market rows = unique (map market_name dff) \<and>
         (\<forall>row \<in> set rows.
            map_of country_iso (gr_market row) = Some (gr_iso_code row) \<and>
            gr_article_count row = length (market_rows dff (gr_market row)) \<and>
            gr_avg_relevance row =
              round_mean (map relevance_score (market_rows dff (gr_market row))) \<and>
            gr_high_impact_count row =
              length (filter (\<lambda>r. impact_level r = ''high'')
                        (market_rows dff (gr_market row))))"
      unfolding map_data_def by (rule map_data_loop_mapped)
  }
qed


text \<open>
  A Japan record followed by a Canada record: \<open>KeyError\<close>. Two Japan records, of
  relevance 9 and 3: one summary record for Japan, whose mean 6 is a whole number.
\<close>

theorem map_data_unmapped_KeyError_witness:
  "market_name canada_news \<notin> fst ` set country_iso \<and>
   map_data whole_mean [japan_9, canada_news] = Inl KeyError \<and>
   map_data whole_mean [japan_9, japan_3] =
     Inr [\<lparr>gr_market = ''Japan'', gr_iso_code = ''JPN'', gr_article_count = 2,
           gr_avg_relevance = 6, gr_high_impact_count = 1,
           gr_top_regulator = Some (''BoJ'', 1),
           gr_primary_focus = ''monetary_policy''\<rparr>]"
proof -
  have a: "market_name canada_news \<notin> fst ` set country_iso"
    by (simp add: canada_news_def example_article_def country_iso_def)
  then have "\<exists>r \<in> set [japan_9, canada_news]. market_name r \<notin> fst ` set country_iso"
    by simp
  with map_data_unmapped_KeyError [of "[japan_9, canada_news]" whole_mean]
  have b: "map_data whole_mean [japan_9, canada_news] = Inl KeyError"
    by blast
  have c: "map_data whole_mean [japan_9, japan_3] =
     Inr [\<lparr>gr_market = ''Japan'', gr_iso_code = ''JPN'', gr_article_count = 2,
           gr_avg_relevance = 6, gr_high_impact_count = 1,
           gr_top_regulator = Some (''BoJ'', 1),
           gr_primary_focus = ''monetary_policy''\<rparr>]"
    by (simp add: map_data_def unique_def drop_duplicates_def market_rows_def counter_def
        country_iso_def whole_mean_def japan_9_def japan_3_def)
  from a b c show ?thesis by simp
qed

text \<open>
  The claim as stated fails in the name of the error: for a market outside the table the
  script raises \<open>KeyError\<close>; nothing in it raises an error called UnmappedMarket.
\<close>

theorem map_data_unmapped_counterexample:
  "map_data whole_mean [japan_9, canada_news] = Inl KeyError \<and>
   map_data whole_mean [japan_9, canada_news] \<noteq> Inl UnmappedMarket"
  by (simp add: map_data_def unique_def drop_duplicates_def market_rows_def counter_def
      country_iso_def whole_mean_def japan_9_def canada_news_def example_article_def)

section \<open>Deduplication: theorems\<close>

text \<open>
  C10. Deduplication is idempotent: deduplicating the output of the deduplication gives
  that output again.
\<close>

theorem df_unique_idempotent: "df_unique (df_unique dff) = df_unique dff"
  by (simp add: df_unique_def drop_duplicates_def drop_duplicates_from_idem)

theorem df_unique_idempotent_witness:
  "df_unique ecb_pair = [ecb_first] \<and>
   df_unique (df_unique ecb_pair) = df_unique ecb_pair"
proof -
  have "df_unique ecb_pair = [ecb_first]"
    by code_simp
  with df_unique_idempotent [of ecb_pair] show ?thesis
    by simp
qed

lemma kept_char_lower: "kept_char c \<Longrightarrow> lower_char c = c"
  by (auto simp: kept_char_def lower_char_def is_space_def Let_def)

lemma lower_char_idem: "lower_char (lower_char c) = lower_char c"
proof -
  have "of_char (char_of (of_char c + 32 :: nat)) = (of_char c + 32 :: nat)"
    if "(of_char c :: nat) \<le> 222"
    using that by (simp add: of_char_of)
  then show ?thesis
    by (auto simp: lower_char_def Let_def)
qed

lemma title_normalized_fixed:
  "\<forall>c \<in> set (title r). kept_char c \<Longrightarrow> title_normalized r = title r"
proof -
  assume k: "\<forall>c \<in> set (title r). kept_char c"
  then have "map lower_char (title r) = title r"
    by (simp add: kept_char_lower map_idI)
  with k show ?thesis
    by (simp add: title_normalized_def)
qed

text \<open>
  C8 (as amended). Deduplication normalizes each title by lowercasing it and removing
  every character that is not a letter a-z, a digit or whitespace; whitespace is kept.
  So the normalized title consists of such characters only, a title made of such
  characters is its own normalized title, and lowercasing a title first changes nothing.
  Records with equal normalized titles are duplicates, and only the first of each is
  kept: the result is a sub-sequence of the collection, its normalized titles are
  pairwise different and are all those of the collection, and a record added at the end
  is kept exactly when no record before it has its normalized title.
\<close>

theorem df_unique_keeps_first:
  "(\<forall>c \<in> set (title_normalized r). kept_char c) \<and>
   ((\<forall>c \<in> set (title r). kept_char c) \<longrightarrow> title_normalized r = title r) \<and>
   title_normalized (r\<lparr>title := map lower_char (title r)\<rparr>) = title_normalized r \<and>
   subseq (df_unique dff) dff \<and>
   distinct (map title_normalized (df_unique dff)) \<and>
   title_normalized ` set (df_unique dff) = title_normalized ` set dff \<and>
   df_unique [] = [] \<and>
   df_unique (dff @ [r]) =
     df_unique dff @ (if title_normalized r \<in> title_normalized ` set dff then [] else [r])"
proof -
  have chars: "\<forall>c \<in> set (title_normalized r). kept_char c"
    by (simp add: title_normalized_def)
  have fixed: "(\<forall>c \<in> set (title r). kept_char c) \<longrightarrow> title_normalized r = title r"
    by (simp add: title_normalized_fixed)
  have lower: "title_normalized (r\<lparr>title := map lower_char (title r)\<rparr>) = title_normalized r"
    by (simp add: title_normalized_def lower_char_idem comp_def)
  have sub: "subseq (df_unique dff) dff"
    by (simp add: df_unique_def drop_duplicates_def drop_duplicates_from_subseq)
  have dist: "distinct (map title_normalized (df_unique dff))"
    by (simp add: df_unique_def drop_duplicates_def drop_duplicates_from_distinct)
  have keys: "title_normalized ` set (df_unique dff) = title_normalized ` set dff"
    by (simp add: df_unique_def drop_duplicates_def drop_duplicates_from_keys)
  have nil: "df_unique [] = []"
    by (simp add: df_unique_def drop_duplicates_def)
  have snoc: "df_unique (dff @ [r]) =
     df_unique dff @ (if title_normalized r \<in> title_normalized ` set dff then [] else [r])"
    by (simp add: df_unique_def drop_duplicates_def drop_duplicates_from_snoc)
  from chars fixed lower sub dist keys nil snoc show ?thesis
    by blast
qed

text \<open>
  The specification's example: "ECB Raises Rates!" and "ecb raises rates" have the same
  normalized title, and the first-seen record is the one retained.
\<close>

theorem df_unique_keeps_first_witness:
  "title_normalized ecb_first = ''ecb raises rates'' \<and>
   title_normalized ecb_second = ''ecb raises rates'' \<and>
   title_normalized ecb_second = title ecb_second \<and>
   df_unique ([ecb_first] @ [ecb_second]) = [ecb_first]"
proof -
  have a: "title_normalized ecb_first = ''ecb raises rates''"
    by code_simp
  have b: "title_normalized ecb_second = ''ecb raises rates''"
    by code_simp
  have c: "title ecb_second = ''ecb raises rates''"
    by (simp add: ecb_second_def example_article_def)
  have d: "df_unique [ecb_first] = [ecb_first]"
    by (simp add: df_unique_def drop_duplicates_def)
  from df_unique_keeps_first [of ecb_second "[ecb_first]"]
  have "df_unique ([ecb_first] @ [ecb_second]) =
        df_unique [ecb_first] @
          (if title_normalized ecb_second \<in> title_normalized ` set [ecb_first] then []
           else [ecb_second])"
    by blast
  with a b c d show ?thesis
    by simp
qed

text \<open>
  The claim as stated fails on whitespace: with every non-alphanumeric character
  stripped, "Rate Cut" and "RateCut" would be duplicates, but the script keeps the
  blank, the normalized titles differ, and both records are retained.
\<close>

theorem df_unique_whitespace_counterexample:
  "spec_title_normalized rate_cut_spaced = spec_title_normalized rate_cut_joined \<and>
   title_normalized rate_cut_spaced = ''rate cut'' \<and>
   title_normalized rate_cut_joined = ''ratecut'' \<and>
   df_unique [rate_cut_spaced, rate_cut_joined] = [rate_cut_spaced, rate_cut_joined]"
  by code_simp

section \<open>Top articles per market: theorems\<close>

lemma nlargest_length: "length (nlargest n dfu) = min n (length dfu)"
  by (simp add: nlargest_def sort_values_desc_length min.commute)

lemma nlargest_set: "set (nlargest n dfu) \<subseteq> set dfu"
  using set_take_subset [of n "sort_values_desc relevance_score dfu"]
  by (simp add: nlargest_def sort_values_desc_set)

lemma nlargest_nonempty: "0 < n \<Longrightarrow> dfu \<noteq> [] \<Longrightarrow> nlargest n dfu \<noteq> []"
proof -
  assume "0 < n" and "dfu \<noteq> []"
  then have "0 < min n (length dfu)" by simp
  then have "0 < length (nlargest n dfu)" by (simp only: nlargest_length)
  then show ?thesis by auto
qed

lemma nlargest_no_rows: "m \<notin> market_name ` set dfu \<Longrightarrow> nlargest n (market_rows dfu m) = []"
proof -
  assume "m \<notin> market_name ` set dfu"
  then have "market_rows dfu m = []"
    by (auto simp: market_rows_def filter_empty_conv)
  then show ?thesis
    by (simp add: nlargest_def sort_values_desc_def)
qed

lemma filter_group_same:
  "filter (\<lambda>r. market_name r = m) (nlargest n (market_rows dfu m)) = nlargest n (market_rows dfu m)"
proof -
  have "\<forall>r \<in> set (nlargest n (market_rows dfu m)). market_name r = m"
    using nlargest_set [of n "market_rows dfu m"] by (auto simp: market_rows_def)
  then show ?thesis by simp
qed

lemma filter_group_other:
  "m' \<noteq> m \<Longrightarrow> filter (\<lambda>r. market_name r = m) (nlargest n (market_rows dfu m')) = []"
proof -
  assume "m' \<noteq> m"
  moreover have "\<forall>r \<in> set (nlargest n (market_rows dfu m')). market_name r = m'"
    using nlargest_set [of n "market_rows dfu m'"] by (auto simp: market_rows_def)
  ultimately show ?thesis by (auto simp: filter_empty_conv)
qed

lemma top_articles_loop_eq:
  "top_articles_loop dfu ms =
   map (\<lambda>m. nlargest 5 (market_rows dfu m)) (filter (\<lambda>m. m \<in> market_name ` set dfu) ms)"
  by (induction ms) (auto simp: isin_def)

lemma nlargest_rows_nonempty:
  "m \<in> market_name ` set dfu \<Longrightarrow> nlargest 5 (market_rows dfu m) \<noteq> []"
proof -
  assume "m \<in> market_name ` set dfu"
  then have "market_rows dfu m \<noteq> []" by (simp only: market_rows_nonempty)
  then show ?thesis by (simp add: nlargest_nonempty)
qed

lemma top_articles_loop_no_empty: "[] \<notin> set (top_articles_loop dfu ms)"
proof (induction ms)
  case Nil
  then show ?case by simp
next
  case (Cons a ms)
  show ?case
  proof (cases "a \<in> market_name ` set dfu")
    case True
    then have "nlargest 5 (market_rows dfu a) \<noteq> []" by (rule nlargest_rows_nonempty)
    with True Cons show ?thesis by (auto simp: isin_def)
  next
    case False
    with Cons show ?thesis by (simp add: isin_def)
  qed
qed

lemma top_articles_loop_market:
  "distinct ms \<Longrightarrow>
   filter (\<lambda>r. market_name r = m) (concat (top_articles_loop dfu ms)) =
   (if m \<in> set ms then nlargest 5 (market_rows dfu m) else [])"
proof (induction ms)
  case Nil
  then show ?case by simp
next
  case (Cons a ms)
  show ?case
  proof (cases "a = m")
    case True
    with Cons have rest: "filter (\<lambda>r. market_name r = m) (concat (top_articles_loop dfu ms)) = []"
      by simp
    show ?thesis
    proof (cases "m \<in> market_name ` set dfu")
      case True
      with \<open>a = m\<close> rest show ?thesis
        by (simp add: isin_def filter_group_same)
    next
      case False
      with \<open>a = m\<close> rest show ?thesis
        by (simp add: isin_def nlargest_no_rows)
    qed
  next
    case False
    with Cons show ?thesis
      by (auto simp: isin_def filter_group_other)
  qed
qed

lemma distinct_market_order: "distinct market_order"
  by (simp add: market_order_def)

text \<open>
  The curated table holds records of the filtered collection only, and none from an
  excluded source, whatever its relevance.
\<close>

lemma top_articles_loop_subset: "set (concat (top_articles_loop dfu ms)) \<subseteq> set dfu"
proof (induction ms)
  case Nil
  then show ?case by simp
next
  case (Cons m ms)
  have "set (nlargest 5 (market_rows dfu m)) \<subseteq> set dfu"
    using nlargest_set [of 5 "market_rows dfu m"] by (auto simp: market_rows_def)
  with Cons show ?case by auto
qed

lemma curated_table_sources:
  assumes "curated_table dff = Some t" and "r \<in> set t"
  shows "r \<in> set dff \<and> source_name r \<notin> set excluded_sources"
proof -
  from assms(1) have "t = concat (top_articles_list (exclude_sources (df_unique dff)))"
    by (simp add: curated_table_def top_articles_def split: if_splits)
  with assms(2) have "r \<in> set (exclude_sources (df_unique dff))"
    using top_articles_loop_subset [of "exclude_sources (df_unique dff)" market_order]
    by (auto simp: top_articles_list_def)
  then have "r \<in> set (df_unique dff)" and "source_name r \<notin> set excluded_sources"
    by (simp_all add: exclude_sources_def isin_def)
  moreover have "set (df_unique dff) \<subseteq> set dff"
    by (simp add: df_unique_def drop_duplicates_def drop_duplicates_from_set)
  ultimately show ?thesis by auto
qed

text \<open>
  The groups for any collection: those of the markets of the fixed list that have a
  record, in the order of the list, each the market's records of greatest relevance;
  none is empty; a market of the list has min(5, number of its records) records in the
  result and a market outside the list has none.
\<close>

lemma top_articles_list_groups:
  "top_articles_list dfu =
     map (\<lambda>m. nlargest 5 (market_rows dfu m))
         (filter (\<lambda>m. m \<in> market_name ` set dfu) market_order) \<and>
   [] \<notin> set (top_articles_list dfu) \<and>
   market_rows (concat (top_articles_list dfu)) m =
     (if m \<in> set market_order then nlargest 5 (market_rows dfu m) else [])"
proof -
  have groups: "top_articles_list dfu =
     map (\<lambda>m. nlargest 5 (market_rows dfu m))
         (filter (\<lambda>m. m \<in> market_name ` set dfu) market_order)"
    by (simp add: top_articles_list_def top_articles_loop_eq)
  have no_empty: "[] \<notin> set (top_articles_list dfu)"
    by (simp add: top_articles_list_def top_articles_loop_no_empty)
  have "filter (\<lambda>r. market_name r = m) (concat (top_articles_list dfu)) =
     (if m \<in> set market_order then nlargest 5 (market_rows dfu m) else [])"
    unfolding top_articles_list_def
    by (rule top_articles_loop_market [OF distinct_market_order])
  then have per: "market_rows (concat (top_articles_list dfu)) m =
     (if m \<in> set market_order then nlargest 5 (market_rows dfu m) else [])"
    by (simp add: market_rows_def)
  from groups no_empty per show ?thesis
    by blast
qed

lemma top_articles_loop_concat:
  "concat (top_articles_loop dfu ms) = concat (map (\<lambda>m. nlargest 5 (market_rows dfu m)) ms)"
proof (induction ms)
  case Nil
  then show ?case by simp
next
  case (Cons m ms)
  show ?case
  proof (cases "m \<in> market_name ` set dfu")
    case True
    with Cons show ?thesis by (simp add: isin_def)
  next
    case False
    with Cons show ?thesis by (simp add: isin_def nlargest_no_rows)
  qed
qed

text \<open>
  C7. The market names of a collection are among the five of the fixed list United
  States, United Kingdom, Germany, Japan, France: it is the closed vocabulary of market
  names, and a collection with any other market never reaches lines 412-422, since line
  191 raises \<open>KeyError\<close> for it. For every such collection (the deduplicated,
  source-filtered one in the script) and for every market: the selection returns at
  most 5 records of that market; it returns fewer than 5 only if the market has fewer
  than 5 records, and precisely min(5, number of its records), which are its records
  of greatest relevance; a market with no record gets no group (no group is empty,
  nothing is padded, nothing fails); and the groups are concatenated in the fixed
  market order.
\<close>

theorem top_articles_list_per_market:
  assumes "market_name ` set dfu \<subseteq> set market_order"
  shows "length (market_rows (concat (top_articles_list dfu)) m) \<le> 5 \<and>
   (length (market_rows (concat (top_articles_list dfu)) m) < 5 \<longrightarrow>
      length (market_rows dfu m) < 5) \<and>
   length (market_rows (concat (top_articles_list dfu)) m) =
     min 5 (length (market_rows dfu m)) \<and>
   market_rows (concat (top_articles_list dfu)) m = nlargest 5 (market_rows dfu m) \<and>
   (market_rows dfu m = [] \<longrightarrow> market_rows (concat (top_articles_list dfu)) m = []) \<and>
   [] \<notin> set (top_articles_list dfu) \<and>
   top_articles_list dfu =
     map (\<lambda>m. nlargest 5 (market_rows dfu m))
         (filter (\<lambda>m. m \<in> market_name ` set dfu) market_order) \<and>
   concat (top_articles_list dfu) =
     concat (map (\<lambda>m. nlargest 5 (market_rows dfu m)) market_order)"
proof -
  from top_articles_list_groups [of dfu m]
  have groups: "top_articles_list dfu =
     map (\<lambda>m. nlargest 5 (market_rows dfu m))
         (filter (\<lambda>m. m \<in> market_name ` set dfu) market_order)"
    and no_empty: "[] \<notin> set (top_articles_list dfu)"
    and g: "market_rows (concat (top_articles_list dfu)) m =
     (if m \<in> set market_order then nlargest 5 (market_rows dfu m) else [])"
    by blast+
  have per: "market_rows (concat (top_articles_list dfu)) m = nlargest 5 (market_rows dfu m)"
  proof (cases "m \<in> set market_order")
    case True
    with g show ?thesis by simp
  next
    case False
    with assms have "m \<notin> market_name ` set dfu" by auto
    then have "nlargest 5 (market_rows dfu m) = []" by (rule nlargest_no_rows)
    with False g show ?thesis by simp
  qed
  have len: "length (market_rows (concat (top_articles_list dfu)) m) =
      min 5 (length (market_rows dfu m))"
    by (simp only: per nlargest_length)
  then have le: "length (market_rows (concat (top_articles_list dfu)) m) \<le> 5"
    and fewer: "length (market_rows (concat (top_articles_list dfu)) m) < 5 \<longrightarrow>
      length (market_rows dfu m) < 5"
    by (simp_all add: min_def)
  have order: "concat (top_articles_list dfu) =
      concat (map (\<lambda>m. nlargest 5 (market_rows dfu m)) market_order)"
    unfolding top_articles_list_def by (rule top_articles_loop_concat)
  have skipped: "market_rows dfu m = [] \<longrightarrow> market_rows (concat (top_articles_list dfu)) m = []"
    by (simp add: per nlargest_def sort_values_desc_def)
  from le fewer len per skipped no_empty groups order show ?thesis
    by blast
qed

text \<open>
  Six Japan records with relevance 1, 5, 3, 7, 7, 2 and one United Kingdom record with
  relevance 4: the United Kingdom group comes first, the Japan group holds the five
  records of relevance 7, 7, 5, 3, 2, and the three markets without a record have no
  group.
\<close>

theorem top_articles_list_per_market_witness:
  "market_name ` set (six_japan @ [uk_4]) \<subseteq> set market_order \<and>
   length (market_rows (six_japan @ [uk_4]) ''Japan'') = 6 \<and>
   map (map relevance_score) (top_articles_list (six_japan @ [uk_4])) = [[4], [7, 7, 5, 3, 2]] \<and>
   length (market_rows (concat (top_articles_list (six_japan @ [uk_4]))) ''Japan'') = 5 \<and>
   length (market_rows (concat (top_articles_list (six_japan @ [uk_4]))) ''France'') = 0"
proof -
  have a: "market_name ` set (six_japan @ [uk_4]) \<subseteq> set market_order"
    by (simp add: market_order_def six_japan_def uk_4_def example_article_def)
  have b: "length (market_rows (six_japan @ [uk_4]) ''Japan'') = 6"
    by (simp add: market_rows_def six_japan_def uk_4_def example_article_def)
  have c: "map (map relevance_score) (top_articles_list (six_japan @ [uk_4])) =
           [[4], [7, 7, 5, 3, 2]]"
    by (simp add: top_articles_list_def market_order_def isin_def nlargest_def
        sort_values_desc_def market_rows_def six_japan_def uk_4_def example_article_def)
  have d: "length (market_rows (six_japan @ [uk_4]) ''France'') = 0"
    by (simp add: market_rows_def six_japan_def uk_4_def example_article_def)
  from top_articles_list_per_market [OF a, of "''Japan''"]
  have e: "length (market_rows (concat (top_articles_list (six_japan @ [uk_4]))) ''Japan'') =
        min 5 (length (market_rows (six_japan @ [uk_4]) ''Japan''))"
    by blast
  from top_articles_list_per_market [OF a, of "''France''"]
  have f: "length (market_rows (concat (top_articles_list (six_japan @ [uk_4]))) ''France'') =
        min 5 (length (market_rows (six_japan @ [uk_4]) ''France''))"
    by blast
  from a b c d e f show ?thesis
    by simp
qed

end
